theory Spec2Isabelle
  imports Main
begin

section \<open>The JavaScript runtime the script relies on\<close>

text \<open>
  Both versions of \<^verbatim>\<open>generate-rss.js\<close> call into the JavaScript runtime and into
  libraries that are not part of the repository: the MD5 digest of \<^verbatim>\<open>crypto\<close>, the
  \<^verbatim>\<open>Date\<close> constructor and \<^verbatim>\<open>toUTCString\<close>, \<^verbatim>\<open>JSON.parse\<close> and the
  \<^verbatim>\<open>xml2js\<close> parser. They are parameters of the model, collected in one record.
  A date that does not parse (JavaScript's \<^verbatim>\<open>Invalid Date\<close>, time value NaN) is
  \<open>None\<close>; a parser that throws returns \<open>Inl\<close> with the message of the error.
\<close>

record RawPost =
  title :: "string option"
  excerpt :: "string option"
  summary :: "string option"
  url_path :: "string option"
  first_published_at :: "string option"

text \<open>
  The document an endpoint answers with, at the shape the code reads it:
  \<^verbatim>\<open>data.posts\<close> when it is an array, and \<^verbatim>\<open>data.content.items\<close>.
  Field values of a post are strings, or absent (\<open>None\<close>).
\<close>

record ApiData =
  posts :: "RawPost list option"
  content_items :: "RawPost list option"

text \<open>
  What \<^verbatim>\<open>xml2js\<close> hands back for a feed, at the shape \<^verbatim>\<open>parseExistingFeed\<close> reads
  it. A child element that is missing is \<open>None\<close> (indexing it throws a TypeError).
  The \<^verbatim>\<open>guid\<close> element is either a plain string or, when the element carries an
  attribute, an object whose text, if there is any, is under the key \<^verbatim>\<open>_\<close>.
\<close>

datatype XmlGuid = GuidText string | GuidNode "string option"

record XmlItem =
  x_title :: "string option"
  x_link :: "string option"
  x_description :: "string option"
  x_pubDate :: "string option"
  x_guid :: "XmlGuid option"

record XmlChannel =
  x_item :: "XmlItem list option"

record XmlRss =
  x_channel :: "XmlChannel list option"

record XmlDoc =
  x_rss :: "XmlRss option"

record Runtime =
  md5_hex :: "string \<Rightarrow> string"
  date_parse :: "string \<Rightarrow> int option"
  utc_string :: "int \<Rightarrow> string"
  nowUTC :: string
  json_parse :: "string \<Rightarrow> string + ApiData"
  parseString :: "string \<Rightarrow> string + XmlDoc"

section \<open>Constants of the script\<close>

definition url41 :: string where
  "url41 = ''https://bonikbarta.com/api/post-filters/41?root_path=00000000010000000001''"

definition url52 :: string where
  "url52 = ''https://bonikbarta.com/api/post-filters/52?root_path=00000000010000000001''"

definition apiURLs :: "string list" where
  "apiURLs = [url41, url52]"

definition baseURL :: string where
  "baseURL = ''https://bonikbarta.com''"

definition maxItems :: nat where
  "maxItems = 500"

section \<open>Feed items and the RSS helpers\<close>

record FeedItem =
  f_title :: string
  f_link :: string
  f_description :: string
  f_pubDate :: string
  f_guid :: string

text \<open>JavaScript's \<^verbatim>\<open>a || b\<close> on a string that may be absent: the empty string is falsy.\<close>

definition or_str :: "string option \<Rightarrow> string \<Rightarrow> string" where
  "or_str v d = (case v of None \<Rightarrow> d | Some s \<Rightarrow> if s = [] then d else s)"

definition guid_source :: "RawPost \<Rightarrow> string" where
  "guid_source item =
     or_str (title item) [] @ or_str (excerpt item) (or_str (summary item) [])
       @ or_str (first_published_at item) []"

definition generateGUID :: "Runtime \<Rightarrow> RawPost \<Rightarrow> string" where
  "generateGUID rt item = md5_hex rt (guid_source item)"

text \<open>The version that fetches without a browser leaves \<^verbatim>\<open>summary\<close> out of the hash.\<close>

definition guid_source_direct :: "RawPost \<Rightarrow> string" where
  "guid_source_direct item =
     or_str (title item) [] @ or_str (excerpt item) [] @ or_str (first_published_at item) []"

definition generateGUID_direct :: "Runtime \<Rightarrow> RawPost \<Rightarrow> string" where
  "generateGUID_direct rt item = md5_hex rt (guid_source_direct item)"

fun escape_char :: "char \<Rightarrow> string" where
  "escape_char c =
     (if c = CHR ''&'' then ''&amp;''
      else if c = CHR ''<'' then ''&lt;''
      else if c = CHR ''>'' then ''&gt;''
      else [c])"

definition escape_title :: "string \<Rightarrow> string" where
  "escape_title s = concat (map escape_char s)"

fun is_prefix :: "string \<Rightarrow> string \<Rightarrow> bool" where
  "is_prefix [] s = True"
| "is_prefix (p # ps) [] = False"
| "is_prefix (p # ps) (c # cs) = (p = c \<and> is_prefix ps cs)"

definition strip_home :: "string \<Rightarrow> string" where
  "strip_home s = (if is_prefix ''/home'' s then drop 5 s else s)"

definition date_string :: "Runtime \<Rightarrow> string \<Rightarrow> string" where
  "date_string rt s =
     (case date_parse rt s of None \<Rightarrow> ''Invalid Date'' | Some t \<Rightarrow> utc_string rt t)"

definition post_pubDate :: "Runtime \<Rightarrow> RawPost \<Rightarrow> string" where
  "post_pubDate rt item =
     (case first_published_at item of
        None \<Rightarrow> nowUTC rt
      | Some s \<Rightarrow> if s = [] then nowUTC rt else date_string rt s)"

definition itemToRSSItem :: "Runtime \<Rightarrow> RawPost \<Rightarrow> FeedItem" where
  "itemToRSSItem rt item =
     \<lparr> f_title = escape_title (or_str (title item) ''No title''),
       f_link = baseURL @ strip_home (or_str (url_path item) ''/''),
       f_description =
         or_str (excerpt item) (or_str (summary item) ''No description available''),
       f_pubDate = post_pubDate rt item,
       f_guid = generateGUID rt item \<rparr>"

definition nl :: string where
  "nl = [CHR 0x0A]"

definition rss_header :: "string \<Rightarrow> string" where
  "rss_header now =
     ''<?xml version=\"1.0\" encoding=\"UTF-8\"?>'' @ nl @
     ''<rss version=\"2.0\" xmlns:atom=\"http://www.w3.org/2005/Atom\">'' @ nl @
     ''  <channel>'' @ nl @
     ''    <title>Bonikbarta Combined Feed</title>'' @ nl @
     ''    <link>https://harmonious-froyo-665879.netlify.app/</link>'' @ nl @
     ''    <atom:link href=\"https://harmonious-froyo-665879.netlify.app/feed.xml\" rel=\"self\" type=\"application/rss+xml\"/>'' @ nl @
     ''    <description>Latest articles from Bonikbarta</description>'' @ nl @
     ''    <language>bn</language>'' @ nl @
     ''    <lastBuildDate>'' @ now @ ''</lastBuildDate>'' @ nl @
     ''    <generator>GitHub Actions RSS Generator</generator>'' @ nl"

definition rss_footer :: string where
  "rss_footer = ''  </channel>'' @ nl @ ''</rss>''"

definition item_block :: "FeedItem \<Rightarrow> string" where
  "item_block item =
     ''    <item>'' @ nl @
     ''      <title>'' @ f_title item @ ''</title>'' @ nl @
     ''      <link>'' @ f_link item @ ''</link>'' @ nl @
     ''      <description><![CDATA['' @ f_description item @ '']]></description>'' @ nl @
     ''      <pubDate>'' @ f_pubDate item @ ''</pubDate>'' @ nl @
     ''      <guid isPermaLink=\"false\">'' @ f_guid item @ ''</guid>'' @ nl @
     ''    </item>'' @ nl"

definition generateRSS :: "Runtime \<Rightarrow> FeedItem list \<Rightarrow> string" where
  "generateRSS rt items = rss_header (nowUTC rt) @ concat (map item_block items) @ rss_footer"


section \<open>Reading the previous feed\<close>

text \<open>
  The console: \<^verbatim>\<open>console.log\<close>, \<^verbatim>\<open>console.warn\<close> and \<^verbatim>\<open>console.error\<close> with
  the text of the message (without the pictograph that opens it in the source).
\<close>

datatype Level = Log | Warn | Error

type_synonym LogEntry = "Level \<times> string"

text \<open>The feed file on disk: missing, present but unreadable, or present with its text.\<close>

datatype FeedFile = Absent | Unreadable string | Content string

text \<open>
  \<^verbatim>\<open>description.replace(/<!\[CDATA\[|\]\]>/g, '')\<close>: every occurrence of either
  marker is removed, scanning from the left.
\<close>

function strip_cdata :: "string \<Rightarrow> string" where
  "strip_cdata s =
     (if s = [] then []
      else if is_prefix ''<![CDATA['' s then strip_cdata (drop 9 s)
      else if is_prefix '']]>'' s then strip_cdata (drop 3 s)
      else hd s # strip_cdata (tl s))"
  by pat_completeness auto
termination
  by (relation "measure length") auto

text \<open>
  \<^verbatim>\<open>item.guid[0]._ || item.guid[0]\<close>. A string has no property \<^verbatim>\<open>_\<close>, so the
  string itself is kept. For an object without text the object is kept; it is written
  here as the text JavaScript prints for it when the feed is serialized.
\<close>

fun guid_text :: "XmlGuid \<Rightarrow> string" where
  "guid_text (GuidText s) = s"
| "guid_text (GuidNode None) = ''[object Object]''"
| "guid_text (GuidNode (Some t)) = (if t = [] then ''[object Object]'' else t)"

text \<open>One step of the \<^verbatim>\<open>map\<close> callback; \<open>None\<close> is the TypeError of indexing a missing child.\<close>

definition xml_to_item :: "XmlItem \<Rightarrow> FeedItem option" where
  "xml_to_item item =
     (case x_title item of None \<Rightarrow> None | Some t \<Rightarrow>
     (case x_link item of None \<Rightarrow> None | Some l \<Rightarrow>
     (case x_description item of None \<Rightarrow> None | Some d \<Rightarrow>
     (case x_pubDate item of None \<Rightarrow> None | Some p \<Rightarrow>
     (case x_guid item of None \<Rightarrow> None | Some g \<Rightarrow>
        Some \<lparr> f_title = t, f_link = l, f_description = strip_cdata d,
               f_pubDate = p, f_guid = guid_text g \<rparr>)))))"

fun map_items :: "XmlItem list \<Rightarrow> FeedItem list option" where
  "map_items [] = Some []"
| "map_items (x # xs) =
     (case xml_to_item x of
        None \<Rightarrow> None
      | Some i \<Rightarrow> (case map_items xs of None \<Rightarrow> None | Some is \<Rightarrow> Some (i # is)))"

fun digit_char :: "nat \<Rightarrow> char" where
  "digit_char n = char_of (48 + n)"

fun string_of_nat :: "nat \<Rightarrow> string" where
  "string_of_nat n =
     (if n < 10 then [digit_char n] else string_of_nat (n div 10) @ [digit_char (n mod 10)])"

declare string_of_nat.simps [simp del]

definition parse_failed :: "string \<Rightarrow> FeedItem list \<times> LogEntry list" where
  "parse_failed msg =
     ([], [(Error, ''Error parsing existing feed: '' @ msg), (Log, ''Starting with fresh feed'')])"

definition invalid_structure :: "FeedItem list \<times> LogEntry list" where
  "invalid_structure = ([], [(Log, ''Invalid feed structure, starting fresh'')])"

definition type_error :: string where
  "type_error = ''Cannot read properties of undefined''"

definition parseExistingFeed :: "Runtime \<Rightarrow> FeedFile \<Rightarrow> FeedItem list \<times> LogEntry list" where
  "parseExistingFeed rt file =
     (case file of
        Absent \<Rightarrow> ([], [(Log, ''No existing feed.xml found, will create new one'')])
      | Unreadable msg \<Rightarrow> parse_failed msg
      | Content xmlContent \<Rightarrow>
          (case parseString rt xmlContent of
             Inl msg \<Rightarrow> parse_failed msg
           | Inr result \<Rightarrow>
               (case x_rss result of
                  None \<Rightarrow> invalid_structure
                | Some rss \<Rightarrow>
                    (case x_channel rss of
                       None \<Rightarrow> invalid_structure
                     | Some [] \<Rightarrow> parse_failed type_error
                     | Some (ch # rest) \<Rightarrow>
                         (case x_item ch of
                            None \<Rightarrow> invalid_structure
                          | Some its \<Rightarrow>
                              (case map_items its of
                                 None \<Rightarrow> parse_failed type_error
                               | Some items \<Rightarrow>
                                   (items,
                                    [(Log, ''Loaded '' @ string_of_nat (length items)
                                             @ '' existing items from feed'')])))))))"


section \<open>Fetching through the browser page\<close>

text \<open>
  What \<^verbatim>\<open>page.evaluate\<close> gives for one URL: it throws, or it returns the text of the
  response.
\<close>

datatype PageResult = Threw string | Body string

definition is_space :: "char \<Rightarrow> bool" where
  "is_space c = List.member [CHR '' '', CHR 0x09, CHR 0x0A, CHR 0x0B, CHR 0x0C, CHR 0x0D] c"

definition trim_start :: "string \<Rightarrow> string" where
  "trim_start s = dropWhile is_space s"

definition extract_items :: "ApiData \<Rightarrow> RawPost list" where
  "extract_items data =
     (case posts data of
        Some ps \<Rightarrow> ps
      | None \<Rightarrow> (case content_items data of Some is \<Rightarrow> is | None \<Rightarrow> []))"

definition fetchJSONWithPlaywright ::
  "Runtime \<Rightarrow> string \<Rightarrow> PageResult \<Rightarrow> RawPost list option \<times> LogEntry list" where
  "fetchJSONWithPlaywright rt url res =
     (let start = [(Log, ''Fetching: '' @ url)];
          failed = (\<lambda>msg. (None, start @ [(Error, ''Failed to fetch: '' @ url @ '' '' @ msg)]))
      in case res of
           Threw msg \<Rightarrow> failed msg
         | Body response \<Rightarrow>
             if \<not> is_prefix ''{'' (trim_start response)
             then (None, start @ [(Error, ''Non-JSON response from '' @ url)])
             else (case json_parse rt response of
                     Inl msg \<Rightarrow> failed msg
                   | Inr data \<Rightarrow>
                       (let items = extract_items data
                        in if items = []
                           then (None, start @ [(Warn, ''No items in response: '' @ url)])
                           else (Some items,
                                 start @ [(Log, string_of_nat (length items)
                                                  @ '' posts found'')]))))"

section \<open>Merging, sorting and writing (browser version)\<close>

record MergeState =
  existingGuids :: "string set"
  existingLinks :: "string set"
  newItems :: "FeedItem list"
  logged :: "LogEntry list"

definition add_post :: "Runtime \<Rightarrow> MergeState \<Rightarrow> RawPost \<Rightarrow> MergeState" where
  "add_post rt st post =
     (let rssItem = itemToRSSItem rt post
      in if f_guid rssItem \<notin> existingGuids st \<and> f_link rssItem \<notin> existingLinks st
         then st \<lparr> newItems := newItems st @ [rssItem],
                   existingGuids := insert (f_guid rssItem) (existingGuids st),
                   existingLinks := insert (f_link rssItem) (existingLinks st) \<rparr>
         else st)"

definition add_posts :: "Runtime \<Rightarrow> MergeState \<Rightarrow> RawPost list \<Rightarrow> MergeState" where
  "add_posts rt st ps = foldl (add_post rt) st ps"

definition visit_url :: "Runtime \<Rightarrow> (string \<Rightarrow> PageResult) \<Rightarrow> MergeState \<Rightarrow> string \<Rightarrow> MergeState" where
  "visit_url rt page st url =
     (case fetchJSONWithPlaywright rt url (page url) of
        (None, lg) \<Rightarrow>
          st \<lparr> logged := logged st @ lg @ [(Warn, ''Skipping '' @ url @ '' due to error'')] \<rparr>
      | (Some items, lg) \<Rightarrow> add_posts rt (st \<lparr> logged := logged st @ lg \<rparr>) items)"

text \<open>
  The comparator \<^verbatim>\<open>(a, b) => new Date(b.pubDate) - new Date(a.pubDate)\<close>. With a
  date that does not parse the difference is NaN, which \<^verbatim>\<open>sort\<close> reads as 0.
  \<open>comes_before a b\<close> says that the comparator is negative on \<open>(a, b)\<close>.
\<close>

definition comes_before :: "('a \<Rightarrow> int option) \<Rightarrow> 'a \<Rightarrow> 'a \<Rightarrow> bool" where
  "comes_before key a b =
     (case (key b, key a) of (Some tb, Some ta) \<Rightarrow> tb - ta < 0 | _ \<Rightarrow> False)"

text \<open>
  \<^verbatim>\<open>Array.prototype.sort\<close> is stable. It is modelled as the stable insertion sort
  driven by the comparator: with a consistent comparator every stable sort returns this
  list.
\<close>

fun insert_by :: "('a \<Rightarrow> 'a \<Rightarrow> bool) \<Rightarrow> 'a \<Rightarrow> 'a list \<Rightarrow> 'a list" where
  "insert_by prec x [] = [x]"
| "insert_by prec x (y # ys) =
     (if prec y x then y # insert_by prec x ys else x # y # ys)"

definition js_sort :: "('a \<Rightarrow> 'a \<Rightarrow> bool) \<Rightarrow> 'a list \<Rightarrow> 'a list" where
  "js_sort prec xs = foldr (insert_by prec) xs []"

definition pub_time :: "Runtime \<Rightarrow> FeedItem \<Rightarrow> int option" where
  "pub_time rt item = date_parse rt (f_pubDate item)"

record MainResult =
  merged :: "FeedItem list"
  finalItems :: "FeedItem list"
  written :: string
  console :: "LogEntry list"

text \<open>
  The run: read the previous feed, visit the endpoints in order, put the new items before
  the old ones, sort, cut to \<open>maxItems\<close>, write. The pause of one second between two
  endpoints has no part in the result and is left out.
\<close>

definition initial_state :: "FeedItem list \<Rightarrow> LogEntry list \<Rightarrow> MergeState" where
  "initial_state existingItems lg =
     \<lparr> existingGuids = set (map f_guid existingItems),
       existingLinks = set (map f_link existingItems),
       newItems = [], logged = lg \<rparr>"

definition main :: "Runtime \<Rightarrow> FeedFile \<Rightarrow> (string \<Rightarrow> PageResult) \<Rightarrow> MainResult" where
  "main rt file page =
     (let (existingItems, lg) = parseExistingFeed rt file;
          st = foldl (visit_url rt page) (initial_state existingItems lg) apiURLs;
          allItems = newItems st @ existingItems;
          sorted = js_sort (comes_before (pub_time rt)) allItems;
          final = take maxItems sorted
      in \<lparr> merged = allItems,
           finalItems = final,
           written = generateRSS rt final,
           console = logged st
             @ [(Log, ''Found '' @ string_of_nat (length (newItems st)) @ '' new items''),
                (Log, ''RSS feed updated with '' @ string_of_nat (length final)
                        @ '' total items'')] \<rparr>)"


section \<open>Fetching with the HTTP client (version without a browser)\<close>

text \<open>
  One attempt of \<^verbatim>\<open>fetch\<close>: it throws (a network error, or the abort fired by the
  timer), or it answers with a status, a content type and a body.
\<close>

datatype Attempt = FetchThrew string | Response nat string string

text \<open>
  The timer aborts a request after \<open>timeoutMs\<close> milliseconds; in the model the abort is
  an attempt that throws.
\<close>

definition timeoutMs :: nat where
  "timeoutMs = 10000"

definition maxRetries :: nat where
  "maxRetries = 3"

definition to_lower :: "char \<Rightarrow> char" where
  "to_lower c =
     (let n = (of_char c :: nat) in if 65 \<le> n \<and> n \<le> 90 then char_of (n + 32) else c)"

fun contains :: "string \<Rightarrow> string \<Rightarrow> bool" where
  "contains p [] = (p = [])"
| "contains p (c # cs) = (is_prefix p (c # cs) \<or> contains p cs)"

definition contains_ci :: "string \<Rightarrow> string \<Rightarrow> bool" where
  "contains_ci p s = contains (map to_lower p) (map to_lower s)"

text \<open>\<^verbatim>\<open>/timeout|AbortError|ECONNRESET|ENOTFOUND|status=5|HTML response/i\<close> on the message.\<close>

definition transient :: "string \<Rightarrow> bool" where
  "transient msg =
     list_ex (\<lambda>p. contains_ci p msg)
       [''timeout'', ''AbortError'', ''ECONNRESET'', ''ENOTFOUND'', ''status=5'',
        ''HTML response'']"

text \<open>The body of the \<^verbatim>\<open>try\<close> block: the parsed document, or the message of the error thrown.\<close>

definition attempt_result :: "Runtime \<Rightarrow> Attempt \<Rightarrow> string + ApiData" where
  "attempt_result rt a =
     (case a of
        FetchThrew msg \<Rightarrow> Inl msg
      | Response status ct text \<Rightarrow>
          if contains ''html'' ct \<or> is_prefix ''<'' (trim_start text)
          then Inl (''HTML response status='' @ string_of_nat status)
          else json_parse rt text)"

record FetchOutcome =
  outcome :: "string + ApiData"
  attempts :: nat
  delays :: "nat list"

text \<open>
  The retry loop, \<open>i\<close> running from 1 to \<open>maxRetries\<close>; \<open>net i\<close> is what the
  \<open>i\<close>-th request meets. The waits between attempts are collected in milliseconds.
\<close>

function fetch_loop :: "Runtime \<Rightarrow> (nat \<Rightarrow> Attempt) \<Rightarrow> nat \<Rightarrow> nat list \<Rightarrow> FetchOutcome" where
  "fetch_loop rt net i ds =
     (case attempt_result rt (net i) of
        Inr data \<Rightarrow> \<lparr> outcome = Inr data, attempts = i, delays = ds \<rparr>
      | Inl msg \<Rightarrow>
          if transient msg \<and> i < maxRetries
          then fetch_loop rt net (i + 1) (ds @ [200 * 2 ^ i])
          else \<lparr> outcome = Inl msg, attempts = i, delays = ds \<rparr>)"
  by pat_completeness auto
termination
  by (relation "measure (\<lambda>(rt, net, i, ds). maxRetries - i)") auto

declare fetch_loop.simps [simp del]

definition fetchJsonSafe :: "Runtime \<Rightarrow> (nat \<Rightarrow> Attempt) \<Rightarrow> FetchOutcome" where
  "fetchJsonSafe rt net = fetch_loop rt net 1 []"

text \<open>
  One round of the loop of \<^verbatim>\<open>fetchAll\<close>. Of the two lines logged for a failure only
  the first is kept; the second repeats a piece of the body.
\<close>

definition fetch_one ::
  "Runtime \<Rightarrow> (string \<Rightarrow> nat \<Rightarrow> Attempt) \<Rightarrow> RawPost list \<times> LogEntry list \<Rightarrow> string
     \<Rightarrow> RawPost list \<times> LogEntry list" where
  "fetch_one rt web acc url =
     (case outcome (fetchJsonSafe rt (web url)) of
        Inr data \<Rightarrow> (fst acc @ extract_items data, snd acc)
      | Inl msg \<Rightarrow> (fst acc, snd acc @ [(Error, ''Failed to load from '' @ url @ '' '' @ msg)]))"

definition raw_time :: "Runtime \<Rightarrow> RawPost \<Rightarrow> int option" where
  "raw_time rt p = (case first_published_at p of None \<Rightarrow> None | Some s \<Rightarrow> date_parse rt s)"

definition fetchAll ::
  "Runtime \<Rightarrow> (string \<Rightarrow> nat \<Rightarrow> Attempt) \<Rightarrow> RawPost list \<times> LogEntry list" where
  "fetchAll rt web =
     (let (allItems, lg) = foldl (fetch_one rt web) ([], []) apiURLs
      in (js_sort (comes_before (raw_time rt)) allItems, lg))"

definition post_to_item_direct :: "Runtime \<Rightarrow> RawPost \<Rightarrow> FeedItem" where
  "post_to_item_direct rt item =
     \<lparr> f_title = escape_title (or_str (title item) ''No title''),
       f_link = baseURL @ strip_home (or_str (url_path item) ''/''),
       f_description =
         or_str (excerpt item) (or_str (summary item) ''No description available''),
       f_pubDate = post_pubDate rt item,
       f_guid = generateGUID_direct rt item \<rparr>"

definition generateRSS_direct :: "Runtime \<Rightarrow> RawPost list \<Rightarrow> string" where
  "generateRSS_direct rt items =
     rss_header (nowUTC rt) @ concat (map (\<lambda>p. item_block (post_to_item_direct rt p)) items)
       @ rss_footer"

record DirectResult =
  d_items :: "RawPost list"
  d_written :: string
  d_console :: "LogEntry list"

definition main_direct :: "Runtime \<Rightarrow> (string \<Rightarrow> nat \<Rightarrow> Attempt) \<Rightarrow> DirectResult" where
  "main_direct rt web =
     (let (items, lg) = fetchAll rt web
      in \<lparr> d_items = take 500 items,
           d_written = generateRSS_direct rt (take 500 items),
           d_console = lg
             @ (if length items = 0 then [(Warn, ''No articles fetched'')] else [])
             @ [(Log, ''RSS feed generated with '' @ string_of_nat (length items)
                        @ '' articles'')] \<rparr>)"


section \<open>Invariants of the merge loop\<close>

text \<open>
  While the endpoints are visited, the two sets hold exactly the guids and the links of
  the items kept so far, the new ones and those of the previous feed.
\<close>

definition merge_inv :: "FeedItem list \<Rightarrow> MergeState \<Rightarrow> bool" where
  "merge_inv existing st =
     (existingGuids st = f_guid ` set (newItems st @ existing)
      \<and> existingLinks st = f_link ` set (newItems st @ existing))"

definition merge_distinct :: "FeedItem list \<Rightarrow> MergeState \<Rightarrow> bool" where
  "merge_distinct existing st =
     (merge_inv existing st
      \<and> distinct (map f_guid (newItems st @ existing))
      \<and> distinct (map f_link (newItems st @ existing)))"

definition merge_fresh :: "FeedItem list \<Rightarrow> MergeState \<Rightarrow> bool" where
  "merge_fresh existing st =
     (merge_inv existing st
      \<and> list_all (\<lambda>i. f_guid i \<notin> f_guid ` set existing) (newItems st))"

text \<open>The merge state with the console left out, and the posts a run obtains.\<close>

definition no_log :: "MergeState \<Rightarrow> MergeState" where
  "no_log st = st\<lparr>logged := []\<rparr>"

definition fetched :: "Runtime \<Rightarrow> (string \<Rightarrow> PageResult) \<Rightarrow> string \<Rightarrow> RawPost list" where
  "fetched rt page url =
     (case fst (fetchJSONWithPlaywright rt url (page url)) of None \<Rightarrow> [] | Some ps \<Rightarrow> ps)"

definition fetched_posts :: "Runtime \<Rightarrow> (string \<Rightarrow> PageResult) \<Rightarrow> RawPost list" where
  "fetched_posts rt page = concat (map (fetched rt page) apiURLs)"

definition fetched_direct :: "Runtime \<Rightarrow> (string \<Rightarrow> nat \<Rightarrow> Attempt) \<Rightarrow> string \<Rightarrow> RawPost list" where
  "fetched_direct rt web url =
     (case outcome (fetchJsonSafe rt (web url)) of Inl msg \<Rightarrow> [] | Inr data \<Rightarrow> extract_items data)"

section \<open>Order of a feed\<close>

text \<open>
  A list is in descending order of date when no item is followed, anywhere later in the
  list, by an item with a later date. Only dates that parse can be compared.
\<close>

definition not_older :: "('a \<Rightarrow> int option) \<Rightarrow> 'a \<Rightarrow> 'a \<Rightarrow> bool" where
  "not_older key a b = (case (key a, key b) of (Some ta, Some tb) \<Rightarrow> tb \<le> ta | _ \<Rightarrow> True)"

definition descending :: "('a \<Rightarrow> int option) \<Rightarrow> 'a list \<Rightarrow> bool" where
  "descending key xs = sorted_wrt (not_older key) xs"

section \<open>Sample inputs\<close>

text \<open>
  Concrete inputs for the examples below: three posts, the documents two endpoints could
  answer with, and a runtime given by finite tables that agree with Node's functions on
  the arguments the examples reach (the digests are the MD5 digests of the three guid
  sources; the dates are those of \<^verbatim>\<open>Date\<close>).
\<close>

definition post_a :: RawPost where
  "post_a = \<lparr> title = Some ''Q&A'', excerpt = Some ''First'', summary = None,
              url_path = Some ''/home/a'', first_published_at = Some ''2024-01-01T00:00:00Z'' \<rparr>"

definition post_d :: RawPost where
  "post_d = \<lparr> title = Some ''D'', excerpt = Some ''Fourth'', summary = None,
              url_path = Some ''/d'', first_published_at = Some ''soon'' \<rparr>"

definition post_c :: RawPost where
  "post_c = \<lparr> title = Some ''C'', excerpt = Some ''Third'', summary = None,
              url_path = Some ''/c'', first_published_at = Some ''2024-01-02T00:00:00Z'' \<rparr>"

definition json_a :: string where
  "json_a = ''{\"title\":\"Q&A\",\"excerpt\":\"First\",\"url_path\":\"/home/a\",\"first_published_at\":\"2024-01-01T00:00:00Z\"}''"

definition json_d :: string where
  "json_d = ''{\"title\":\"D\",\"excerpt\":\"Fourth\",\"url_path\":\"/d\",\"first_published_at\":\"soon\"}''"

definition json_c :: string where
  "json_c = ''{\"title\":\"C\",\"excerpt\":\"Third\",\"url_path\":\"/c\",\"first_published_at\":\"2024-01-02T00:00:00Z\"}''"

definition body_a :: string where
  "body_a = ''{\"posts\":['' @ json_a @ '']}''"

definition body_adc :: string where
  "body_adc = ''{\"posts\":['' @ json_a @ '','' @ json_d @ '','' @ json_c @ '']}''"

definition body_ac :: string where
  "body_ac = ''{\"posts\":['' @ json_a @ '','' @ json_c @ '']}''"

definition body_empty :: string where
  "body_empty = ''{\"posts\":[]}''"

definition sample_json_parse :: "string \<Rightarrow> string + ApiData" where
  "sample_json_parse s =
     (if s = body_a then Inr \<lparr> posts = Some [post_a], content_items = None \<rparr>
      else if s = body_ac then Inr \<lparr> posts = Some [post_a, post_c], content_items = None \<rparr>
      else if s = body_adc then Inr \<lparr> posts = Some [post_a, post_d, post_c], content_items = None \<rparr>
      else if s = body_empty then Inr \<lparr> posts = Some [], content_items = None \<rparr>
      else Inl ''Unexpected token in JSON'')"

definition guid_a :: string where
  "guid_a = ''f4ad093cc6d87f4dc77fd670e402f8a1''"

definition sample_md5 :: "string \<Rightarrow> string" where
  "sample_md5 s =
     (if s = ''Q&AFirst2024-01-01T00:00:00Z'' then guid_a
      else if s = ''DFourthsoon'' then ''a1a2d6dcf5c0d49d046b14105c9604ae''
      else if s = ''CThird2024-01-02T00:00:00Z'' then ''5c4a5219a0ea59eeb216588b72018d1b''
      else ''d41d8cd98f00b204e9800998ecf8427e'')"

definition jan1 :: string where
  "jan1 = ''Mon, 01 Jan 2024 00:00:00 GMT''"

definition jan2 :: string where
  "jan2 = ''Tue, 02 Jan 2024 00:00:00 GMT''"

definition jan3 :: string where
  "jan3 = ''Wed, 03 Jan 2024 00:00:00 GMT''"

definition sample_date_parse :: "string \<Rightarrow> int option" where
  "sample_date_parse s =
     (if s = ''2024-01-01T00:00:00Z'' \<or> s = jan1 then Some 1704067200000
      else if s = ''2024-01-02T00:00:00Z'' \<or> s = jan2 then Some 1704153600000
      else if s = jan3 then Some 1704240000000
      else None)"

definition sample_utc_string :: "int \<Rightarrow> string" where
  "sample_utc_string t =
     (if t = 1704067200000 then jan1 else if t = 1704153600000 then jan2 else jan3)"

definition item_a :: FeedItem where
  "item_a = \<lparr> f_title = ''Q&amp;A'', f_link = ''https://bonikbarta.com/a'',
              f_description = ''First'', f_pubDate = jan1, f_guid = guid_a \<rparr>"

text \<open>
  The feed the script writes for \<open>post_a\<close> alone, and what it writes when the version
  without a browser gets \<open>post_a\<close> from both endpoints; with them the trees a parser
  returns for the two texts (the entity in the title decoded).
\<close>

definition feed_one :: string where
  "feed_one = rss_header jan3 @ item_block item_a @ rss_footer"

definition feed_twice :: string where
  "feed_twice = rss_header jan3 @ item_block item_a @ item_block item_a @ rss_footer"

definition xml_a :: XmlItem where
  "xml_a = \<lparr> x_title = Some ''Q&A'', x_link = Some ''https://bonikbarta.com/a'',
             x_description = Some ''First'', x_pubDate = Some jan1,
             x_guid = Some (GuidNode (Some guid_a)) \<rparr>"

definition doc_of :: "XmlItem list \<Rightarrow> XmlDoc" where
  "doc_of its = \<lparr> x_rss = Some \<lparr> x_channel = Some [\<lparr> x_item = Some its \<rparr>] \<rparr> \<rparr>"

text \<open>Every other text is rejected, as a strict parser rejects a bare ampersand.\<close>

definition sample_parseString :: "string \<Rightarrow> string + XmlDoc" where
  "sample_parseString s =
     (if s = feed_one then Inr (doc_of [xml_a])
      else if s = feed_twice then Inr (doc_of [xml_a, xml_a])
      else Inl ''Invalid character in entity name'')"

definition sample_runtime :: Runtime where
  "sample_runtime =
     \<lparr> md5_hex = sample_md5, date_parse = sample_date_parse, utc_string = sample_utc_string,
       nowUTC = jan3, json_parse = sample_json_parse, parseString = sample_parseString \<rparr>"

definition page_down :: "string \<Rightarrow> PageResult" where
  "page_down url = Threw ''net::ERR_CONNECTION_RESET''"

definition page_a :: "string \<Rightarrow> PageResult" where
  "page_a url = (if url = url41 then Body body_a else Threw ''net::ERR_CONNECTION_RESET'')"

definition page_adc :: "string \<Rightarrow> PageResult" where
  "page_adc url = (if url = url41 then Body body_adc else Body body_empty)"

definition page_ac :: "string \<Rightarrow> PageResult" where
  "page_ac url = (if url = url41 then Body body_ac else Body body_empty)"


definition web_ac :: "string \<Rightarrow> nat \<Rightarrow> Attempt" where
  "web_ac url i =
     (if url = url41 then Response 200 ''application/json'' body_ac
      else FetchThrew ''getaddrinfo ENOTFOUND bonikbarta.com'')"




definition web_a :: "string \<Rightarrow> nat \<Rightarrow> Attempt" where
  "web_a url i = Response 200 ''application/json'' body_a"

section \<open>Sorting keeps the items\<close>

lemma set_insert_by: "set (insert_by prec x ys) = insert x (set ys)"
  by (induction ys) auto

lemma length_insert_by: "length (insert_by prec x ys) = Suc (length ys)"
  by (induction ys) auto

lemma filter_insert_by:
  "length (filter P (insert_by prec x ys)) = length (filter P (x # ys))"
  by (induction ys) auto

lemma distinct_map_insert_by:
  "distinct (map f (insert_by prec x ys)) = (f x \<notin> f ` set ys \<and> distinct (map f ys))"
  by (induction ys) (auto simp: set_insert_by)

lemma set_js_sort: "set (js_sort prec xs) = set xs"
  by (induction xs) (auto simp: js_sort_def set_insert_by)

lemma length_js_sort: "length (js_sort prec xs) = length xs"
  by (induction xs) (auto simp: js_sort_def length_insert_by)

lemma filter_js_sort: "length (filter P (js_sort prec xs)) = length (filter P xs)"
proof (induction xs)
  case Nil
  show ?case by (simp add: js_sort_def)
next
  case (Cons x xs)
  have "js_sort prec (x # xs) = insert_by prec x (js_sort prec xs)"
    by (simp add: js_sort_def)
  then show ?case using Cons by (simp add: filter_insert_by)
qed

lemma distinct_map_js_sort: "distinct (map f (js_sort prec xs)) = distinct (map f xs)"
proof (induction xs)
  case Nil
  show ?case by (simp add: js_sort_def)
next
  case (Cons x xs)
  have "js_sort prec (x # xs) = insert_by prec x (js_sort prec xs)"
    by (simp add: js_sort_def)
  then show ?case using Cons by (simp add: distinct_map_insert_by set_js_sort)
qed

lemma distinct_map_take: "distinct (map f xs) \<Longrightarrow> distinct (map f (take n xs))"
  by (simp add: distinct_take flip: take_map)

section \<open>The merge loop keeps its invariants\<close>

lemma add_post_inv: "merge_inv ex st \<Longrightarrow> merge_inv ex (add_post rt st p)"
  by (auto simp: merge_inv_def add_post_def Let_def)

lemma add_post_distinct:
  assumes "merge_inv ex st" and "distinct (map f_guid (newItems st @ ex))"
    and "distinct (map f_link (newItems st @ ex))"
  shows "distinct (map f_guid (newItems (add_post rt st p) @ ex))
       \<and> distinct (map f_link (newItems (add_post rt st p) @ ex))"
  using assms by (auto simp: merge_inv_def add_post_def Let_def)

lemma add_post_fresh:
  assumes "merge_inv ex st" and "\<forall>i \<in> set (newItems st). f_guid i \<notin> f_guid ` set ex"
  shows "\<forall>i \<in> set (newItems (add_post rt st p)). f_guid i \<notin> f_guid ` set ex"
  using assms by (auto simp: merge_inv_def add_post_def Let_def)


lemma add_post_merge_distinct: "merge_distinct ex st \<Longrightarrow> merge_distinct ex (add_post rt st p)"
  unfolding merge_distinct_def using add_post_inv add_post_distinct by blast

lemma add_post_merge_fresh: "merge_fresh ex st \<Longrightarrow> merge_fresh ex (add_post rt st p)"
  unfolding merge_fresh_def list_all_iff using add_post_inv add_post_fresh by blast

lemma foldl_preserves:
  assumes "\<And>s x. P s \<Longrightarrow> P (f s x)" and "P s"
  shows "P (foldl f s xs)"
  using assms(2) by (induction xs arbitrary: s) (auto intro: assms(1))

lemma visit_url_preserves:
  assumes step: "\<And>s p. P s \<Longrightarrow> P (add_post rt s p)"
    and lg: "\<And>s l. P (s\<lparr>logged := l\<rparr>) = P s"
    and "P st"
  shows "P (visit_url rt page st url)"
proof (cases "fetchJSONWithPlaywright rt url (page url)")
  case (Pair r l)
  show ?thesis
  proof (cases r)
    case None
    with Pair assms(3) show ?thesis by (simp add: visit_url_def lg)
  next
    case (Some items)
    have "P (foldl (add_post rt) (st\<lparr>logged := logged st @ l\<rparr>) items)"
      by (rule foldl_preserves) (simp_all add: step lg assms(3))
    with Pair Some show ?thesis by (simp add: visit_url_def add_posts_def)
  qed
qed

lemma visit_all_preserves:
  assumes step: "\<And>s p. P s \<Longrightarrow> P (add_post rt s p)"
    and lg: "\<And>s l. P (s\<lparr>logged := l\<rparr>) = P s"
    and "P st"
  shows "P (foldl (visit_url rt page) st urls)"
proof (rule foldl_preserves)
  fix s x
  assume "P s"
  then show "P (visit_url rt page s x)"
    using step lg by (rule visit_url_preserves [rotated 2])
next
  show "P st" by (rule assms(3))
qed

lemma main_unfold:
  assumes "parseExistingFeed rt file = (ex, lg)"
  shows "merged (main rt file page)
           = newItems (foldl (visit_url rt page) (initial_state ex lg) apiURLs) @ ex"
    and "finalItems (main rt file page)
           = take maxItems (js_sort (comes_before (pub_time rt)) (merged (main rt file page)))"
    and "written (main rt file page) = generateRSS rt (finalItems (main rt file page))"
  using assms by (simp_all add: main_def Let_def initial_state_def)

section \<open>What a run fetches and keeps\<close>

lemma add_post_logged:
  "add_post rt (st\<lparr>logged := l\<rparr>) p = (add_post rt st p)\<lparr>logged := l\<rparr>"
  by (simp add: add_post_def Let_def)

lemma add_posts_logged:
  "add_posts rt (st\<lparr>logged := l\<rparr>) ps = (add_posts rt st ps)\<lparr>logged := l\<rparr>"
  unfolding add_posts_def
  by (induction ps arbitrary: st) (simp_all add: add_post_logged)

lemma add_posts_Nil: "add_posts rt st [] = st"
  by (simp add: add_posts_def)

lemma add_posts_append:
  "add_posts rt st (ps @ qs) = add_posts rt (add_posts rt st ps) qs"
  by (simp add: add_posts_def)

lemma no_log_visit_url:
  "no_log (visit_url rt page st url) = add_posts rt (no_log st) (fetched rt page url)"
proof (cases "fetchJSONWithPlaywright rt url (page url)")
  case (Pair r l)
  then show ?thesis
    by (cases r) (simp_all add: visit_url_def fetched_def no_log_def add_posts_logged add_posts_Nil)
qed

lemma no_log_visit_all:
  "no_log (foldl (visit_url rt page) st urls)
     = add_posts rt (no_log st) (concat (map (fetched rt page) urls))"
proof (induction urls arbitrary: st)
  case Nil
  show ?case by (simp add: add_posts_Nil)
next
  case (Cons u urls)
  show ?case
    by (simp add: Cons.IH no_log_visit_url add_posts_append)
qed

lemma newItems_no_log: "newItems (no_log st) = newItems st"
  by (simp add: no_log_def)

lemma merged_main:
  "merged (main rt file page)
     = newItems (add_posts rt (initial_state (fst (parseExistingFeed rt file)) [])
                   (fetched_posts rt page))
       @ fst (parseExistingFeed rt file)"
proof -
  obtain ex lg where p: "parseExistingFeed rt file = (ex, lg)"
    by (cases "parseExistingFeed rt file")
  have "no_log (initial_state ex lg) = initial_state ex []"
    by (simp add: no_log_def initial_state_def)
  then have "newItems (foldl (visit_url rt page) (initial_state ex lg) apiURLs)
      = newItems (add_posts rt (initial_state ex []) (fetched_posts rt page))"
    using no_log_visit_all [of rt page "initial_state ex lg" apiURLs] newItems_no_log
    by (metis fetched_posts_def)
  then show ?thesis
    by (simp add: main_unfold(1)[OF p] p)
qed


lemma final_main:
  "finalItems (main rt file page)
     = take maxItems (js_sort (comes_before (pub_time rt)) (merged (main rt file page)))"
  "written (main rt file page) = generateRSS rt (finalItems (main rt file page))"
  by (cases "parseExistingFeed rt file"; simp add: main_unfold)+






lemma fst_fetch_one: "fst (fetch_one rt web acc u) = fst acc @ fetched_direct rt web u"
  by (simp add: fetch_one_def fetched_direct_def split: sum.splits)

lemma fetch_all_items:
  "fst (foldl (fetch_one rt web) acc urls) = fst acc @ concat (map (fetched_direct rt web) urls)"
proof (induction urls arbitrary: acc)
  case Nil
  show ?case by simp
next
  case (Cons u urls)
  show ?case
    by (simp add: Cons.IH fst_fetch_one)
qed

lemma fetchAll_items:
  "fst (fetchAll rt web)
     = js_sort (comes_before (raw_time rt)) (concat (map (fetched_direct rt web) apiURLs))"
proof -
  obtain xs lg where f: "foldl (fetch_one rt web) ([], []) apiURLs = (xs, lg)"
    by (cases "foldl (fetch_one rt web) ([], []) apiURLs")
  have "xs = concat (map (fetched_direct rt web) apiURLs)"
    using fetch_all_items [of rt web "([], [])" apiURLs] f by simp
  with f show ?thesis by (simp add: fetchAll_def)
qed

lemma same_run:
  assumes "fst (parseExistingFeed rt f1) = fst (parseExistingFeed rt f2)"
    and "fetched_posts rt p1 = fetched_posts rt p2"
  shows "merged (main rt f1 p1) = merged (main rt f2 p2)
       \<and> finalItems (main rt f1 p1) = finalItems (main rt f2 p2)
       \<and> written (main rt f1 p1) = written (main rt f2 p2)"
proof -
  have m: "merged (main rt f1 p1) = merged (main rt f2 p2)"
    by (simp add: merged_main assms)
  then have "finalItems (main rt f1 p1) = finalItems (main rt f2 p2)"
    by (simp add: final_main(1))
  with m show ?thesis by (simp add: final_main(2))
qed

lemma filter_take_le: "length (filter P (take n xs)) \<le> length (filter P xs)"
proof (induction xs arbitrary: n)
  case Nil
  show ?case by simp
next
  case (Cons x xs)
  show ?case
  proof (cases n)
    case 0
    then show ?thesis by simp
  next
    case (Suc m)
    with Cons.IH [of m] show ?thesis by simp
  qed
qed

lemma main_fresh:
  "list_all (\<lambda>i. f_guid i \<notin> f_guid ` set (fst (parseExistingFeed rt file)))
     (newItems (add_posts rt (initial_state (fst (parseExistingFeed rt file)) [])
                  (fetched_posts rt page)))"
proof -
  define ex where "ex = fst (parseExistingFeed rt file)"
  have init: "merge_fresh ex (initial_state ex [])"
    by (simp add: merge_fresh_def merge_inv_def initial_state_def)
  have "merge_fresh ex (foldl (add_post rt) (initial_state ex []) (fetched_posts rt page))"
  proof (rule foldl_preserves [where P = "merge_fresh ex"])
    show "merge_fresh ex (initial_state ex [])" by (rule init)
  next
    fix s p
    assume "merge_fresh ex s"
    then show "merge_fresh ex (add_post rt s p)" by (rule add_post_merge_fresh)
  qed
  then show ?thesis
    by (simp add: merge_fresh_def add_posts_def ex_def)
qed

lemma count_guid: "count_list (map f xs) y = length (filter (\<lambda>x. f x = y) xs)"
  by (induction xs) auto

section \<open>Sorting by date\<close>

lemma not_older_trans:
  assumes "key a \<noteq> None" and "key b \<noteq> None" and "key c \<noteq> None"
    and "not_older key a b" and "not_older key b c"
  shows "not_older key a c"
  using assms by (auto simp: not_older_def)

lemma insert_by_descending:
  assumes "\<forall>z \<in> set (x # ys). key z \<noteq> None" and "descending key ys"
  shows "descending key (insert_by (comes_before key) x ys)"
  using assms
proof (induction ys)
  case Nil
  show ?case by (simp add: descending_def)
next
  case (Cons y ys)
  obtain tx ty where k: "key x = Some tx" "key y = Some ty"
    using Cons.prems(1) by auto
  show ?case
  proof (cases "comes_before key y x")
    case True
    then have yx: "not_older key y x"
      using k by (simp add: comes_before_def not_older_def)
    have "descending key (insert_by (comes_before key) x ys)"
      using Cons by (simp add: descending_def)
    with True yx Cons.prems(2) show ?thesis
      by (auto simp: descending_def set_insert_by)
  next
    case False
    then have xy: "not_older key x y"
      using k by (simp add: comes_before_def not_older_def)
    have "not_older key x z" if "z \<in> set ys" for z
    proof -
      have "not_older key y z"
        using Cons.prems(2) that by (simp add: descending_def)
      with xy show ?thesis
        using Cons.prems(1) that not_older_trans [of key x y z] by auto
    qed
    with False xy Cons.prems(2) show ?thesis
      by (auto simp: descending_def)
  qed
qed

lemma js_sort_descending:
  assumes "\<forall>z \<in> set xs. key z \<noteq> None"
  shows "descending key (js_sort (comes_before key) xs)"
  using assms
proof (induction xs)
  case Nil
  show ?case by (simp add: js_sort_def descending_def)
next
  case (Cons x xs)
  have s: "js_sort (comes_before key) (x # xs)
      = insert_by (comes_before key) x (js_sort (comes_before key) xs)"
    by (simp add: js_sort_def)
  have "descending key (js_sort (comes_before key) xs)"
    using Cons by simp
  moreover have "\<forall>z \<in> set (x # js_sort (comes_before key) xs). key z \<noteq> None"
    using Cons.prems by (simp add: set_js_sort)
  ultimately show ?case
    unfolding s by (intro insert_by_descending)
qed

lemma descending_take: "descending key xs \<Longrightarrow> descending key (take n xs)"
  by (simp add: descending_def sorted_wrt_take)

section \<open>The retry loop\<close>







section \<open>The identifier of an item\<close>



section \<open>No duplicates in the feed\<close>

text \<open>
  C1 as stated, no two items of the written feed share a guid or a link whatever the
  previous feed held and whichever endpoints answered, does not hold. The browser version
  never compares the items of the previous feed with each other, so a previous feed that
  lists an item twice is written back with the item twice; and the version without a
  browser does not deduplicate at all, so a post that both endpoints list is written twice.
\<close>

theorem no_duplicates_counterexample:
  "\<not> distinct (map f_guid (finalItems (main sample_runtime (Content feed_twice) page_down)))
   \<and> \<not> distinct (map f_guid (map (post_to_item_direct sample_runtime)
                                  (d_items (main_direct sample_runtime web_a))))"
  by code_simp

text \<open>
  C1, amended: in the browser version, when the items read from the previous feed have
  pairwise different guids and pairwise different links, no two items of the written feed
  share a guid and no two share a link.
\<close>

theorem no_duplicates_in_feed:
  assumes "distinct (map f_guid (fst (parseExistingFeed rt file)))"
    and "distinct (map f_link (fst (parseExistingFeed rt file)))"
  shows "distinct (map f_guid (finalItems (main rt file page)))
       \<and> distinct (map f_link (finalItems (main rt file page)))
       \<and> written (main rt file page) = generateRSS rt (finalItems (main rt file page))"
proof -
  obtain ex lg where p: "parseExistingFeed rt file = (ex, lg)"
    by (cases "parseExistingFeed rt file")
  have init: "merge_distinct ex (initial_state ex lg)"
    using assms p by (simp add: merge_distinct_def merge_inv_def initial_state_def)
  have "merge_distinct ex (foldl (visit_url rt page) (initial_state ex lg) apiURLs)"
  proof (rule visit_all_preserves [where P = "merge_distinct ex"])
    show "merge_distinct ex (initial_state ex lg)" by (rule init)
  next
    fix s p
    assume "merge_distinct ex s"
    then show "merge_distinct ex (add_post rt s p)" by (rule add_post_merge_distinct)
  next
    fix s l
    show "merge_distinct ex (s\<lparr>logged := l\<rparr>) = merge_distinct ex s"
      by (simp add: merge_distinct_def merge_inv_def)
  qed
  then have "distinct (map f_guid (merged (main rt file page)))"
    and "distinct (map f_link (merged (main rt file page)))"
    by (simp_all add: main_unfold(1)[OF p] merge_distinct_def)
  then show ?thesis
    by (simp add: main_unfold(2)[OF p] main_unfold(3)[OF p] distinct_map_take
        distinct_map_js_sort)
qed

theorem no_duplicates_in_feed_witness:
  "distinct (map f_guid (fst (parseExistingFeed sample_runtime (Content feed_one))))
   \<and> distinct (map f_link (fst (parseExistingFeed sample_runtime (Content feed_one))))
   \<and> distinct (map f_guid (finalItems (main sample_runtime (Content feed_one) page_adc)))
   \<and> distinct (map f_link (finalItems (main sample_runtime (Content feed_one) page_adc)))
   \<and> length (finalItems (main sample_runtime (Content feed_one) page_adc)) = 3"
proof -
  have g: "distinct (map f_guid (fst (parseExistingFeed sample_runtime (Content feed_one))))"
    by code_simp
  have l: "distinct (map f_link (fst (parseExistingFeed sample_runtime (Content feed_one))))"
    by code_simp
  have n: "length (finalItems (main sample_runtime (Content feed_one) page_adc)) = 3"
    by code_simp
  show ?thesis
    using g l n no_duplicates_in_feed [OF g l, of page_adc] by simp
qed

section \<open>The cap on the number of items\<close>

text \<open>
  C5. The feed that is written never has more than 500 items, however many were fetched
  and however many the previous feed held; this holds in both versions of the script.
\<close>

theorem feed_at_most_500_items:
  "length (finalItems (main rt file page)) \<le> 500
   \<and> written (main rt file page) = generateRSS rt (finalItems (main rt file page))
   \<and> length (d_items (main_direct rt web)) \<le> 500
   \<and> d_written (main_direct rt web) = generateRSS_direct rt (d_items (main_direct rt web))"
proof -
  obtain ex lg where p: "parseExistingFeed rt file = (ex, lg)"
    by (cases "parseExistingFeed rt file")
  obtain items dl where f: "fetchAll rt web = (items, dl)"
    by (cases "fetchAll rt web")
  have "length (finalItems (main rt file page)) \<le> 500"
    by (simp add: main_unfold(2)[OF p] maxItems_def)
  moreover have "length (d_items (main_direct rt web)) \<le> 500"
    using f by (simp add: main_direct_def)
  moreover have "d_written (main_direct rt web)
      = generateRSS_direct rt (d_items (main_direct rt web))"
    using f by (simp add: main_direct_def)
  ultimately show ?thesis
    by (simp add: main_unfold(3)[OF p])
qed

section \<open>A run that finds nothing\<close>



section \<open>A previous feed that cannot be used\<close>



section \<open>An endpoint without posts\<close>

text \<open>
  C10. In the browser version an answer that parses as JSON but holds no post makes
  \<^verbatim>\<open>fetchJSONWithPlaywright\<close> return null, as a failed request does; and two runs that
  differ only in that one endpoint answers with such a document in the one and fails in
  the other merge the same items and write the same feed.
\<close>

theorem empty_answer_is_like_failure:
  assumes "json_parse rt body = Inr data" and "extract_items data = []"
    and "page1 u = Body body" and "page2 u = Threw msg"
    and "\<forall>v \<in> set apiURLs. v \<noteq> u \<longrightarrow> page1 v = page2 v"
  shows "fst (fetchJSONWithPlaywright rt u (Body body)) = None
       \<and> fst (fetchJSONWithPlaywright rt u (Threw msg)) = None
       \<and> merged (main rt file page1) = merged (main rt file page2)
       \<and> finalItems (main rt file page1) = finalItems (main rt file page2)
       \<and> written (main rt file page1) = written (main rt file page2)"
proof -
  have a: "fst (fetchJSONWithPlaywright rt u (Body body)) = None"
    using assms(1,2) by (simp add: fetchJSONWithPlaywright_def Let_def)
  have b: "fst (fetchJSONWithPlaywright rt u (Threw msg)) = None"
    by (simp add: fetchJSONWithPlaywright_def Let_def)
  have "fetched rt page1 v = fetched rt page2 v" if "v \<in> set apiURLs" for v
  proof (cases "v = u")
    case True
    with a b assms(3,4) show ?thesis by (simp add: fetched_def)
  next
    case False
    with assms(5) that show ?thesis by (simp add: fetched_def)
  qed
  then have "map (fetched rt page1) apiURLs = map (fetched rt page2) apiURLs"
    by simp
  then have "fetched_posts rt page1 = fetched_posts rt page2"
    by (simp only: fetched_posts_def)
  then show ?thesis
    using a b same_run [of rt "file" "file" page1 page2] by simp
qed

theorem empty_answer_is_like_failure_witness:
  "json_parse sample_runtime body_empty = Inr \<lparr> posts = Some [], content_items = None \<rparr>
   \<and> fst (fetchJSONWithPlaywright sample_runtime url52 (Body body_empty)) = None
   \<and> written (main sample_runtime (Content feed_one) page_ac)
       = written (main sample_runtime (Content feed_one)
           (\<lambda>url. if url = url41 then Body body_ac else Threw ''net::ERR_CONNECTION_RESET''))"
proof -
  have j: "json_parse sample_runtime body_empty = Inr \<lparr> posts = Some [], content_items = None \<rparr>"
    by code_simp
  have e: "extract_items \<lparr> posts = Some [], content_items = None \<rparr> = []"
    by (simp add: extract_items_def)
  have p1: "page_ac url52 = Body body_empty"
    by code_simp
  have p2: "(\<lambda>url. if url = url41 then Body body_ac else Threw ''net::ERR_CONNECTION_RESET'') url52
      = Threw ''net::ERR_CONNECTION_RESET''"
    by code_simp
  have o: "\<forall>v \<in> set apiURLs. v \<noteq> url52 \<longrightarrow> page_ac v
      = (\<lambda>url. if url = url41 then Body body_ac else Threw ''net::ERR_CONNECTION_RESET'') v"
    by (simp add: page_ac_def apiURLs_def)
  from empty_answer_is_like_failure [OF j e p1 p2 o, of "Content feed_one"] j
  show ?thesis by simp
qed

section \<open>A post that is fetched again\<close>

text \<open>
  C7 as stated does not hold when the previous feed already lists the item more than
  once: the fetched copy is discarded, but the copies of the previous feed are all kept.
  Here the previous feed lists the item twice, the endpoint returns its post unchanged,
  the guid computed for the post is the stored one, and the merged list has the item twice.
\<close>

theorem unchanged_post_counterexample:
  "item_a\<lparr>f_title := ''Q&A''\<rparr> \<in> set (fst (parseExistingFeed sample_runtime (Content feed_twice)))
   \<and> post_a \<in> set (fetched_posts sample_runtime page_a)
   \<and> f_guid (itemToRSSItem sample_runtime post_a) = f_guid (item_a\<lparr>f_title := ''Q&A''\<rparr>)
   \<and> count_list (map f_guid (merged (main sample_runtime (Content feed_twice) page_a))) guid_a = 2"
  by code_simp

text \<open>
  C7, amended: if the previous feed holds an item X whose guid was computed from a post,
  no other item of the previous feed has that guid, and an endpoint returns a post with
  the same title, excerpt, summary and first publication date, then the guid computed for
  the fetched post is the guid of X, the merged list has exactly one item with that guid,
  and the written feed has at most one.
\<close>

theorem unchanged_post_not_duplicated:
  assumes "X \<in> set (fst (parseExistingFeed rt file))"
    and "f_guid X = generateGUID rt p"
    and "title q = title p" and "excerpt q = excerpt p" and "summary q = summary p"
    and "first_published_at q = first_published_at p"
    and "q \<in> set (fetched_posts rt page)"
    and "count_list (map f_guid (fst (parseExistingFeed rt file))) (f_guid X) = 1"
  shows "f_guid (itemToRSSItem rt q) = f_guid X
       \<and> count_list (map f_guid (merged (main rt file page))) (f_guid X) = 1
       \<and> count_list (map f_guid (finalItems (main rt file page))) (f_guid X) \<le> 1"
proof -
  let ?ex = "fst (parseExistingFeed rt file)"
  let ?new = "newItems (add_posts rt (initial_state ?ex []) (fetched_posts rt page))"
  have g: "f_guid (itemToRSSItem rt q) = f_guid X"
    using assms(2-6)
    by (simp add: itemToRSSItem_def generateGUID_def guid_source_def)
  have "f_guid X \<in> f_guid ` set ?ex"
    using assms(1) by simp
  then have "filter (\<lambda>i. f_guid i = f_guid X) ?new = []"
    using main_fresh [of rt "file" page] by (auto simp: list_all_iff filter_empty_conv)
  then have m: "length (filter (\<lambda>i. f_guid i = f_guid X) (merged (main rt file page))) = 1"
    using assms(8) by (simp add: merged_main count_guid)
  have "length (filter (\<lambda>i. f_guid i = f_guid X) (finalItems (main rt file page)))
      \<le> length (filter (\<lambda>i. f_guid i = f_guid X)
           (js_sort (comes_before (pub_time rt)) (merged (main rt file page))))"
    by (simp add: final_main(1) filter_take_le)
  with m have "length (filter (\<lambda>i. f_guid i = f_guid X) (finalItems (main rt file page))) \<le> 1"
    by (simp add: filter_js_sort)
  with g m show ?thesis by (simp add: count_guid)
qed

theorem unchanged_post_not_duplicated_witness:
  "item_a\<lparr>f_title := ''Q&A''\<rparr> \<in> set (fst (parseExistingFeed sample_runtime (Content feed_one)))
   \<and> post_a \<in> set (fetched_posts sample_runtime page_a)
   \<and> f_guid (itemToRSSItem sample_runtime post_a) = guid_a
   \<and> count_list (map f_guid (merged (main sample_runtime (Content feed_one) page_a))) guid_a = 1"
proof -
  have x: "item_a\<lparr>f_title := ''Q&A''\<rparr> \<in> set (fst (parseExistingFeed sample_runtime (Content feed_one)))"
    by code_simp
  have s: "f_guid (item_a\<lparr>f_title := ''Q&A''\<rparr>) = generateGUID sample_runtime post_a"
    by code_simp
  have f: "post_a \<in> set (fetched_posts sample_runtime page_a)"
    by code_simp
  have o: "count_list (map f_guid (fst (parseExistingFeed sample_runtime (Content feed_one))))
      (f_guid (item_a\<lparr>f_title := ''Q&A''\<rparr>)) = 1"
    by code_simp
  have ga: "f_guid (item_a\<lparr>f_title := ''Q&A''\<rparr>) = guid_a"
    by (simp add: item_a_def)
  from unchanged_post_not_duplicated [OF x s refl refl refl refl f o] x f
  show ?thesis by (simp add: ga)
qed

section \<open>The order of the feed\<close>

text \<open>
  C6 as stated, the items of every written feed are in descending order of publication
  date, does not hold: a date that does not parse makes the comparator return NaN, which
  the sort reads as "equal", and the items around it are not brought into order. Here one
  endpoint returns a post of 1 January, a post whose date is not a date, and a post of
  2 January; the feed lists them in this order.
\<close>

theorem feed_descending_counterexample:
  "\<not> descending (pub_time sample_runtime) (finalItems (main sample_runtime Absent page_adc))"
  by code_simp

text \<open>
  C6, amended: when the publication date of every merged item parses, the items of the
  written feed are in descending order of publication date (browser version); when the
  first publication date of every fetched post is present and parses, the posts are
  written in descending order of it (version without a browser).
\<close>

theorem feed_descending_by_date:
  "((\<forall>i \<in> set (merged (main rt file page)). pub_time rt i \<noteq> None)
      \<longrightarrow> descending (pub_time rt) (finalItems (main rt file page)))
   \<and> ((\<forall>p \<in> set (fst (fetchAll rt web)). raw_time rt p \<noteq> None)
      \<longrightarrow> descending (raw_time rt) (d_items (main_direct rt web)))"
proof (intro conjI impI)
  assume "\<forall>i \<in> set (merged (main rt file page)). pub_time rt i \<noteq> None"
  then have "descending (pub_time rt)
      (js_sort (comes_before (pub_time rt)) (merged (main rt file page)))"
    by (rule js_sort_descending)
  then show "descending (pub_time rt) (finalItems (main rt file page))"
    by (simp add: final_main(1) descending_take)
next
  assume a: "\<forall>p \<in> set (fst (fetchAll rt web)). raw_time rt p \<noteq> None"
  let ?all = "concat (map (fetched_direct rt web) apiURLs)"
  have "\<forall>p \<in> set ?all. raw_time rt p \<noteq> None"
    using a unfolding fetchAll_items set_js_sort .
  then have "descending (raw_time rt) (js_sort (comes_before (raw_time rt)) ?all)"
    by (rule js_sort_descending)
  then have d: "descending (raw_time rt) (fst (fetchAll rt web))"
    by (simp only: fetchAll_items)
  obtain items lg where f: "fetchAll rt web = (items, lg)"
    by (cases "fetchAll rt web")
  with d show "descending (raw_time rt) (d_items (main_direct rt web))"
    by (simp add: main_direct_def descending_take)
qed

theorem feed_descending_by_date_witness:
  "map (pub_time sample_runtime) (merged (main sample_runtime Absent page_ac))
     = [Some 1704067200000, Some 1704153600000]
   \<and> descending (pub_time sample_runtime) (finalItems (main sample_runtime Absent page_ac))
   \<and> map f_pubDate (finalItems (main sample_runtime Absent page_ac)) = [jan2, jan1]
   \<and> map (raw_time sample_runtime) (fst (fetchAll sample_runtime web_ac))
     = [Some 1704153600000, Some 1704067200000]
   \<and> descending (raw_time sample_runtime) (d_items (main_direct sample_runtime web_ac))
   \<and> d_items (main_direct sample_runtime web_ac) = [post_c, post_a]"
proof -
  have k1: "map (pub_time sample_runtime) (merged (main sample_runtime Absent page_ac))
      = [Some 1704067200000, Some 1704153600000]"
    by code_simp
  have k2: "map (raw_time sample_runtime) (fst (fetchAll sample_runtime web_ac))
      = [Some 1704153600000, Some 1704067200000]"
    by code_simp
  have h1: "\<forall>i \<in> set (merged (main sample_runtime Absent page_ac)). pub_time sample_runtime i \<noteq> None"
  proof
    fix i
    assume "i \<in> set (merged (main sample_runtime Absent page_ac))"
    then have "pub_time sample_runtime i
        \<in> set (map (pub_time sample_runtime) (merged (main sample_runtime Absent page_ac)))"
      by simp
    then show "pub_time sample_runtime i \<noteq> None"
      unfolding k1 by auto
  qed
  have h2: "\<forall>p \<in> set (fst (fetchAll sample_runtime web_ac)). raw_time sample_runtime p \<noteq> None"
  proof
    fix p
    assume "p \<in> set (fst (fetchAll sample_runtime web_ac))"
    then have "raw_time sample_runtime p
        \<in> set (map (raw_time sample_runtime) (fst (fetchAll sample_runtime web_ac)))"
      by simp
    then show "raw_time sample_runtime p \<noteq> None"
      unfolding k2 by auto
  qed
  have v1: "map f_pubDate (finalItems (main sample_runtime Absent page_ac)) = [jan2, jan1]"
    by code_simp
  have v2: "d_items (main_direct sample_runtime web_ac) = [post_c, post_a]"
    by code_simp
  from feed_descending_by_date [of sample_runtime Absent page_ac web_ac] h1 h2 k1 k2 v1 v2
  show ?thesis by blast
qed

section \<open>Retries and failed endpoints\<close>




section \<open>Reading a written feed back\<close>

text \<open>
  C2. Reading a feed the script wrote and writing the items again should give the same
  items in the same order. The code escapes a title only when it builds the item from a
  post. The feed written for \<open>post_a\<close> (title \<^verbatim>\<open>Q&A\<close>) is \<open>feed_one\<close>, with the
  title escaped; the parser hands the title back decoded, and the next run writes it
  as it is. That second feed has a bare ampersand in its title, a strict XML parser
  rejects it, and the run after that starts from an empty history: reading the second
  feed back gives no item where the feed holds one.
\<close>

theorem reserialized_feed_is_not_read_back:
  "generateRSS sample_runtime [itemToRSSItem sample_runtime post_a] = feed_one
   \<and> fst (parseExistingFeed sample_runtime (Content feed_one)) = [item_a\<lparr>f_title := ''Q&A''\<rparr>]
   \<and> written (main sample_runtime (Content feed_one) page_down)
       = rss_header jan3 @ item_block (item_a\<lparr>f_title := ''Q&A''\<rparr>) @ rss_footer
   \<and> fst (parseExistingFeed sample_runtime
            (Content (written (main sample_runtime (Content feed_one) page_down)))) = []"
  by code_simp

end
